theory Spec2Isabelle
  imports Complex_Main "HOL-Library.Multiset"
begin

section \<open>The SCI-90 scoring engine\<close>

text \<open>
  A shallow embedding of the scoring module (\<^verbatim>\<open>calculateResult\<close>,
  \<^verbatim>\<open>determineRiskLevel\<close>, \<^verbatim>\<open>getFactorInterpretation\<close>,
  \<^verbatim>\<open>parseResultFromURL\<close>) and of the question table served by the worker.

  Conventions of the embedding.
  \<^item> A JavaScript string is the list of its UTF-8 bytes (\<^typ>\<open>string\<close>). The Chinese
    literals that the code compares or returns as keys are spelled out byte by byte.
  \<^item> The long display texts (descriptions, advice, suggestions) are never inspected by
    the code. Each is represented by \<open>Lit l k\<close>: the \<open>k\<close>-th string literal (counting
    from 0) on line \<open>l\<close> of the scoring module.
  \<^item> An entry of the answer array is \<open>Some v\<close> for the integer \<open>v\<close> and \<open>None\<close> when it
    is absent (\<^verbatim>\<open>undefined\<close>, \<^verbatim>\<open>null\<close> or a hole).
  \<^item> Sums of integers are \<^typ>\<open>int\<close>. A JavaScript number in general is an
    exact rational, one of the two infinities, or \<^verbatim>\<open>NaN\<close>; the only non-rational a
    quotient of the module can be is \<^verbatim>\<open>NaN\<close> (\<open>0 / 0\<close>, for a factor with no items).
    Arithmetic is exact: the rounding of doubles is not modelled.
  \<^item> An object with string keys is the list of its own enumerable properties in
    the order \<^verbatim>\<open>Object.entries\<close> lists them.
\<close>

subsection \<open>JavaScript values\<close>

type_synonym answer = "int option"

datatype jsnum = Num rat | PosInf | NegInf | NaN

datatype prose = Lit nat nat

type_synonym 'v obj = "(string \<times> 'v) list"

text \<open>\<^verbatim>\<open>answer || 0\<close>: a missing entry and the number 0 are falsy.\<close>

definition orZero :: "answer \<Rightarrow> int" where
  "orZero a = (case a of None \<Rightarrow> 0 | Some v \<Rightarrow> if v = 0 then 0 else v)"

text \<open>\<^verbatim>\<open>answer > 1\<close>: a missing entry compares false.\<close>

definition gtOne :: "answer \<Rightarrow> bool" where
  "gtOne a = (case a of None \<Rightarrow> False | Some v \<Rightarrow> 1 < v)"

text \<open>\<^verbatim>\<open>answers[i]\<close>: reading outside the array gives \<^verbatim>\<open>undefined\<close>.\<close>

definition js_index :: "answer list \<Rightarrow> int \<Rightarrow> answer" where
  "js_index xs i = (if 0 \<le> i \<and> i < int (length xs) then xs ! nat i else None)"

text \<open>\<^verbatim>\<open>a >= b\<close> and \<^verbatim>\<open>a > b\<close> on numbers; every comparison with \<^verbatim>\<open>NaN\<close> is false.\<close>

fun js_ge :: "jsnum \<Rightarrow> jsnum \<Rightarrow> bool" where
  "js_ge NaN _ = False"
| "js_ge _ NaN = False"
| "js_ge PosInf _ = True"
| "js_ge _ NegInf = True"
| "js_ge (Num a) (Num b) = (b \<le> a)"
| "js_ge _ _ = False"

fun js_gt :: "jsnum \<Rightarrow> jsnum \<Rightarrow> bool" where
  "js_gt NaN _ = False"
| "js_gt _ NaN = False"
| "js_gt _ PosInf = False"
| "js_gt NegInf _ = False"
| "js_gt (Num a) (Num b) = (b < a)"
| "js_gt _ _ = True"

text \<open>
  \<^verbatim>\<open>obj[key] = value\<close> on an object created by \<^verbatim>\<open>{}\<close>: an existing key keeps its
  place, a new key goes last, and the key \<^verbatim>\<open>__proto__\<close> is the inherited setter, which
  creates no own property.
\<close>

fun obj_update :: "string \<Rightarrow> 'v \<Rightarrow> 'v obj \<Rightarrow> 'v obj" where
  "obj_update k v [] = [(k, v)]"
| "obj_update k v (p # ps) = (if fst p = k then (k, v) # ps else p # obj_update k v ps)"

definition obj_set :: "'v obj \<Rightarrow> string \<Rightarrow> 'v \<Rightarrow> 'v obj" where
  "obj_set ob k v = (if k = ''__proto__'' then ob else obj_update k v ob)"

subsection \<open>String literals of the module\<close>

text \<open>The four level names of \<^verbatim>\<open>determineRiskLevel\<close> (lines 69, 80, 91, 101):
  U+91CD U+5EA6 (severe), U+4E2D U+5EA6 (moderate), U+8F7B U+5EA6 (mild),
  U+65E0 U+660E U+663E (no marked distress).\<close>

definition lit_severe :: string where
  "lit_severe = [CHR 0xE9, CHR 0x87, CHR 0x8D, CHR 0xE5, CHR 0xBA, CHR 0xA6]"

definition lit_moderate :: string where
  "lit_moderate = [CHR 0xE4, CHR 0xB8, CHR 0xAD, CHR 0xE5, CHR 0xBA, CHR 0xA6]"

definition lit_mild :: string where
  "lit_mild = [CHR 0xE8, CHR 0xBD, CHR 0xBB, CHR 0xE5, CHR 0xBA, CHR 0xA6]"

definition lit_none :: string where
  "lit_none = [CHR 0xE6, CHR 0x97, CHR 0xA0, CHR 0xE6, CHR 0x98, CHR 0x8E, CHR 0xE6, CHR 0x98, CHR 0xBE]"

text \<open>The three qualitative levels of \<^verbatim>\<open>getFactorInterpretation\<close> (line 173):
  U+504F U+9AD8 (elevated), U+4E2D U+7B49 (medium), U+6B63 U+5E38 (normal).\<close>

definition lit_elevated :: string where
  "lit_elevated = [CHR 0xE5, CHR 0x81, CHR 0x8F, CHR 0xE9, CHR 0xAB, CHR 0x98]"

definition lit_medium :: string where
  "lit_medium = [CHR 0xE4, CHR 0xB8, CHR 0xAD, CHR 0xE7, CHR 0xAD, CHR 0x89]"

definition lit_normal :: string where
  "lit_normal = [CHR 0xE6, CHR 0xAD, CHR 0xA3, CHR 0xE5, CHR 0xB8, CHR 0xB8]"

text \<open>The nine factor names, in the order in which \<^verbatim>\<open>getFactorInterpretation\<close>
  declares them (lines 118 to 158): somatization U+8EAF U+4F53 U+5316,
  obsessive-compulsive U+5F3A U+8FEB U+75C7 U+72B6, interpersonal sensitivity
  U+4EBA U+9645 U+5173 U+7CFB U+654F U+611F, depression U+6291 U+90C1, anxiety
  U+7126 U+8651, hostility U+654C U+5BF9, phobic anxiety U+6050 U+6016, paranoid
  ideation U+504F U+6267, psychoticism U+7CBE U+795E U+75C5 U+6027.\<close>

definition lit_somatization :: string where
  "lit_somatization = [CHR 0xE8, CHR 0xBA, CHR 0xAF, CHR 0xE4, CHR 0xBD, CHR 0x93, CHR 0xE5, CHR 0x8C, CHR 0x96]"

definition lit_obsessive :: string where
  "lit_obsessive = [CHR 0xE5, CHR 0xBC, CHR 0xBA, CHR 0xE8, CHR 0xBF, CHR 0xAB, CHR 0xE7, CHR 0x97, CHR 0x87,
     CHR 0xE7, CHR 0x8A, CHR 0xB6]"

definition lit_interpersonal :: string where
  "lit_interpersonal = [CHR 0xE4, CHR 0xBA, CHR 0xBA, CHR 0xE9, CHR 0x99, CHR 0x85, CHR 0xE5, CHR 0x85, CHR 0xB3,
     CHR 0xE7, CHR 0xB3, CHR 0xBB, CHR 0xE6, CHR 0x95, CHR 0x8F, CHR 0xE6, CHR 0x84, CHR 0x9F]"

definition lit_depression :: string where
  "lit_depression = [CHR 0xE6, CHR 0x8A, CHR 0x91, CHR 0xE9, CHR 0x83, CHR 0x81]"

definition lit_anxiety :: string where
  "lit_anxiety = [CHR 0xE7, CHR 0x84, CHR 0xA6, CHR 0xE8, CHR 0x99, CHR 0x91]"

definition lit_hostility :: string where
  "lit_hostility = [CHR 0xE6, CHR 0x95, CHR 0x8C, CHR 0xE5, CHR 0xAF, CHR 0xB9]"

definition lit_phobic :: string where
  "lit_phobic = [CHR 0xE6, CHR 0x81, CHR 0x90, CHR 0xE6, CHR 0x80, CHR 0x96]"

definition lit_paranoid :: string where
  "lit_paranoid = [CHR 0xE5, CHR 0x81, CHR 0x8F, CHR 0xE6, CHR 0x89, CHR 0xA7]"

definition lit_psychotic :: string where
  "lit_psychotic = [CHR 0xE7, CHR 0xB2, CHR 0xBE, CHR 0xE7, CHR 0xA5, CHR 0x9E, CHR 0xE7, CHR 0x97, CHR 0x85,
     CHR 0xE6, CHR 0x80, CHR 0xA7]"

subsection \<open>Result records\<close>

record FactorResult =
  score :: int
  average :: jsnum
  itemCount :: nat

record RiskLevel =
  level :: string
  color :: string
  description :: prose
  advice :: prose
  mainIssue :: "string option"
  recommendProfessional :: bool

record ResultRecord =
  totalScore :: int
  totalAverage :: rat
  positiveItems :: nat
  factors :: "FactorResult obj"
  riskLevel :: RiskLevel
  timestamp :: string

subsection \<open>determineRiskLevel\<close>

text \<open>The three variables that the loop over \<^verbatim>\<open>Object.entries(factors)\<close> updates.\<close>

record scan =
  maxFactorScore :: jsnum
  maxFactorName :: string
  highFactorCount :: nat

definition scanStep :: "scan \<Rightarrow> string \<times> FactorResult \<Rightarrow> scan" where
  "scanStep s e =
     (case e of (factorName, data) \<Rightarrow>
        if js_ge (average data) (Num 3) then
          (let s1 = s\<lparr>highFactorCount := highFactorCount s + 1\<rparr>
           in if js_gt (average data) (maxFactorScore s1)
              then s1\<lparr>maxFactorScore := average data, maxFactorName := factorName\<rparr>
              else s1)
        else s)"

definition scanFactors :: "FactorResult obj \<Rightarrow> scan" where
  "scanFactors fs =
     foldl scanStep \<lparr>maxFactorScore = Num 0, maxFactorName = [], highFactorCount = 0\<rparr> fs"

definition determineRiskLevel :: "int \<Rightarrow> FactorResult obj \<Rightarrow> RiskLevel" where
  "determineRiskLevel tscore fs =
     (let s = scanFactors fs
      in if 250 \<le> tscore \<or> 3 \<le> highFactorCount s then
           \<lparr>level = lit_severe, color = ''#e74c3c'', description = Lit 71 0, advice = Lit 72 0,
            mainIssue = Some (maxFactorName s), recommendProfessional = True\<rparr>
         else if 200 \<le> tscore \<or> 2 \<le> highFactorCount s then
           \<lparr>level = lit_moderate, color = ''#e67e22'', description = Lit 82 0, advice = Lit 83 0,
            mainIssue = Some (maxFactorName s), recommendProfessional = True\<rparr>
         else if 160 \<le> tscore \<or> 1 \<le> highFactorCount s then
           \<lparr>level = lit_mild, color = ''#f39c12'', description = Lit 93 0, advice = Lit 94 0,
            mainIssue = Some (maxFactorName s), recommendProfessional = False\<rparr>
         else
           \<lparr>level = lit_none, color = ''#27ae60'', description = Lit 103 0, advice = Lit 104 0,
            mainIssue = None, recommendProfessional = False\<rparr>)"

subsection \<open>calculateResult\<close>

text \<open>
  The module imports \<^verbatim>\<open>factorIndices\<close> from the question data file, and reads the
  clock for the time stamp. Both are arguments here: \<open>fi\<close> is
  \<^verbatim>\<open>Object.entries(factorIndices)\<close> and \<open>now\<close> is the text
  \<^verbatim>\<open>new Date().toISOString()\<close> returns at the call.
\<close>

definition factorEntry :: "answer list \<Rightarrow> int list \<Rightarrow> FactorResult" where
  "factorEntry answers indices =
     (let factorScores = map (\<lambda>index. orZero (js_index answers (index - 1))) indices;
          factorSum = foldl (\<lambda>sum score. sum + score) 0 factorScores
      in \<lparr>score = factorSum,
          average = (if length indices = 0 then NaN
                     else Num (of_int factorSum / of_nat (length indices))),
          itemCount = length indices\<rparr>)"

definition buildFactors :: "(string \<times> int list) list \<Rightarrow> answer list \<Rightarrow> FactorResult obj" where
  "buildFactors fi answers =
     foldl (\<lambda>fs e. case e of (factorName, indices) \<Rightarrow>
              obj_set fs factorName (factorEntry answers indices)) [] fi"

definition calculateResult :: "(string \<times> int list) list \<Rightarrow> string \<Rightarrow> answer list \<Rightarrow> ResultRecord" where
  "calculateResult fi now answers =
     (let tscore = foldl (\<lambda>sum answer. sum + orZero answer) 0 answers;
          fs = buildFactors fi answers
      in \<lparr>totalScore = tscore,
          totalAverage = of_int tscore / 90,
          positiveItems = length (filter gtOne answers),
          factors = fs,
          riskLevel = determineRiskLevel tscore fs,
          timestamp = now\<rparr>)"

subsection \<open>The question table and the factor index table\<close>

text \<open>
  The question table of the worker (\<^verbatim>\<open>getQuestions\<close>): the id and the dimension of
  each of the 90 items. The item text plays no part in scoring and is left out.
\<close>

definition questions :: "(int \<times> string) list" where
  "questions =
    [(1, lit_somatization), (2, lit_obsessive), (3, lit_obsessive),
     (4, lit_somatization), (5, lit_interpersonal), (6, lit_hostility),
     (7, lit_paranoid), (8, lit_hostility), (9, lit_obsessive),
     (10, lit_obsessive), (11, lit_hostility), (12, lit_somatization),
     (13, lit_phobic), (14, lit_depression), (15, lit_depression),
     (16, lit_psychotic), (17, lit_anxiety), (18, lit_interpersonal),
     (19, lit_somatization), (20, lit_depression), (21, lit_interpersonal),
     (22, lit_paranoid), (23, lit_phobic), (24, lit_hostility),
     (25, lit_phobic), (26, lit_depression), (27, lit_somatization),
     (28, lit_obsessive), (29, lit_interpersonal), (30, lit_depression),
     (31, lit_anxiety), (32, lit_depression), (33, lit_phobic),
     (34, lit_interpersonal), (35, lit_psychotic), (36, lit_interpersonal),
     (37, lit_interpersonal), (38, lit_obsessive), (39, lit_anxiety),
     (40, lit_somatization), (41, lit_interpersonal), (42, lit_somatization),
     (43, lit_paranoid), (44, lit_depression), (45, lit_obsessive),
     (46, lit_obsessive), (47, lit_phobic), (48, lit_anxiety),
     (49, lit_anxiety), (50, lit_phobic), (51, lit_psychotic),
     (52, lit_somatization), (53, lit_somatization), (54, lit_depression),
     (55, lit_obsessive), (56, lit_somatization), (57, lit_anxiety),
     (58, lit_somatization), (59, lit_depression), (60, lit_somatization),
     (61, lit_interpersonal), (62, lit_psychotic), (63, lit_hostility),
     (64, lit_depression), (65, lit_obsessive), (66, lit_depression),
     (67, lit_hostility), (68, lit_psychotic), (69, lit_interpersonal),
     (70, lit_phobic), (71, lit_depression), (72, lit_phobic),
     (73, lit_phobic), (74, lit_hostility), (75, lit_anxiety),
     (76, lit_paranoid), (77, lit_interpersonal), (78, lit_anxiety),
     (79, lit_depression), (80, lit_psychotic), (81, lit_hostility),
     (82, lit_phobic), (83, lit_paranoid), (84, lit_psychotic),
     (85, lit_psychotic), (86, lit_obsessive), (87, lit_somatization),
     (88, lit_interpersonal), (89, lit_depression), (90, lit_psychotic)]"

text \<open>
  Modelled from the spec: the table \<^verbatim>\<open>factorIndices\<close> of the question data file, which
  the scoring module imports, is not among the sources. The spec describes it as
  an immutable mapping from the 9 fixed factor names to the ordered item ids of each
  factor, the 9 index sets partitioning 1..90, iterated in a fixed declared order.
  Here each factor gets the ids of the items that the worker's question table assigns
  to it, and the factors come in the order in which \<^verbatim>\<open>getFactorInterpretation\<close>
  declares them.
\<close>

definition factorNames :: "string list" where
  "factorNames = [lit_somatization, lit_obsessive, lit_interpersonal, lit_depression, lit_anxiety,
     lit_hostility, lit_phobic, lit_paranoid, lit_psychotic]"

definition factorIndices :: "(string \<times> int list) list" where
  "factorIndices = map (\<lambda>name. (name, map fst (filter (\<lambda>q. snd q = name) questions))) factorNames"

subsection \<open>getFactorInterpretation\<close>

text \<open>
  Reading \<^verbatim>\<open>obj[key]\<close> on an object literal finds an own property, or else a property
  inherited from \<^verbatim>\<open>Object.prototype\<close>, or else gives \<^verbatim>\<open>undefined\<close>. The inherited
  properties are the methods of the language standard (and its accessor
  \<^verbatim>\<open>__proto__\<close>); all of them are truthy values without own enumerable properties.
\<close>

datatype 'v property = Own 'v | Inherited | Undefined

definition objectPrototypeKeys :: "string list" where
  "objectPrototypeKeys =
     [''constructor'', ''hasOwnProperty'', ''isPrototypeOf'', ''propertyIsEnumerable'',
      ''toLocaleString'', ''toString'', ''valueOf'', ''__proto__'', ''__defineGetter__'',
      ''__defineSetter__'', ''__lookupGetter__'', ''__lookupSetter__'']"

definition obj_get :: "'v obj \<Rightarrow> string \<Rightarrow> 'v property" where
  "obj_get ob k =
     (case map_of ob k of
        Some v \<Rightarrow> Own v
      | None \<Rightarrow> if k \<in> set objectPrototypeKeys then Inherited else Undefined)"

text \<open>An entry of the table: description, highScore and the suggestions.\<close>

type_synonym interpretationText = "prose \<times> prose \<times> prose list"

definition interpretations :: "interpretationText obj" where
  "interpretations =
     [(lit_somatization, (Lit 119 0, Lit 120 0, [Lit 121 0, Lit 121 1, Lit 121 2])),
      (lit_obsessive, (Lit 124 0, Lit 125 0, [Lit 126 0, Lit 126 1, Lit 126 2, Lit 126 3])),
      (lit_interpersonal, (Lit 129 0, Lit 130 0, [Lit 131 0, Lit 131 1, Lit 131 2, Lit 131 3])),
      (lit_depression, (Lit 134 0, Lit 135 0, [Lit 136 0, Lit 136 1, Lit 136 2, Lit 136 3])),
      (lit_anxiety, (Lit 139 0, Lit 140 0, [Lit 141 0, Lit 141 1, Lit 141 2, Lit 141 3])),
      (lit_hostility, (Lit 144 0, Lit 145 0, [Lit 146 0, Lit 146 1, Lit 146 2, Lit 146 3])),
      (lit_phobic, (Lit 149 0, Lit 150 0, [Lit 151 0, Lit 151 1, Lit 151 2, Lit 151 3])),
      (lit_paranoid, (Lit 154 0, Lit 155 0, [Lit 156 0, Lit 156 1, Lit 156 2, Lit 156 3])),
      (lit_psychotic, (Lit 159 0, Lit 160 0, [Lit 161 0, Lit 161 1, Lit 161 2, Lit 161 3]))]"

definition fallbackInterpretation :: interpretationText where
  "fallbackInterpretation = (Lit 166 0, Lit 167 0, [Lit 168 0, Lit 168 1, Lit 168 2])"

text \<open>
  The returned object: the spread \<^verbatim>\<open>...interpretation\<close> copies the own enumerable
  properties of the value found, so the three text fields are present only when that
  value is an entry of the table or the fallback (\<open>None\<close>: the property is absent).
\<close>

record Interpretation =
  description :: "prose option"
  highScore :: "prose option"
  suggestions :: "prose list option"
  level :: string
  status :: string

definition getFactorInterpretation :: "string \<Rightarrow> jsnum \<Rightarrow> Interpretation" where
  "getFactorInterpretation factorName averageScore =
     (let interpretation =
            (case obj_get interpretations factorName of
               Undefined \<Rightarrow> Own fallbackInterpretation
             | found \<Rightarrow> found);
          lvl = (if js_ge averageScore (Num 3) then lit_elevated
                 else if js_ge averageScore (Num 2) then lit_medium else lit_normal);
          st = (if js_ge averageScore (Num 3) then ''warning''
                else if js_ge averageScore (Num 2) then ''attention'' else ''normal'')
      in case interpretation of
           Own (d, h, sg) \<Rightarrow>
             \<lparr>description = Some d, highScore = Some h, suggestions = Some sg,
              level = lvl, status = st\<rparr>
         | _ \<Rightarrow>
             \<lparr>description = None, highScore = None, suggestions = None,
              level = lvl, status = st\<rparr>)"

subsection \<open>parseResultFromURL\<close>

text \<open>
  The function reads \<^verbatim>\<open>window.location.hash\<close> and calls the built-ins \<^verbatim>\<open>atob\<close> and
  \<^verbatim>\<open>JSON.parse\<close>, each of which either returns or throws. The hash and the two
  built-ins are arguments; a computation that may throw has a value in \<open>'e + 'a\<close>
  (\<open>Inl\<close>: the exception thrown). The result is paired with what the call wrote to the
  console; \<open>None\<close> is \<^verbatim>\<open>null\<close>.
\<close>

definition startsWith :: "string \<Rightarrow> string \<Rightarrow> bool" where
  "startsWith s p = (take (length p) s = p)"

definition andThen :: "'e + 'a \<Rightarrow> ('a \<Rightarrow> 'e + 'b) \<Rightarrow> 'e + 'b" where
  "andThen m f = (case m of Inl e \<Rightarrow> Inl e | Inr x \<Rightarrow> f x)"

definition tryCatch :: "'e + 'a \<Rightarrow> ('e \<Rightarrow> 'e + 'a) \<Rightarrow> 'e + 'a" where
  "tryCatch body handler = (case body of Inl e \<Rightarrow> handler e | Inr x \<Rightarrow> Inr x)"

definition parseResultFromURL ::
  "(string \<Rightarrow> 'e + string) \<Rightarrow> (string \<Rightarrow> 'e + 'j) \<Rightarrow> string \<Rightarrow> 'e + ('j option \<times> 'e list)" where
  "parseResultFromURL atob jsonParse hash =
     (if hash \<noteq> [] \<and> startsWith hash ''#result='' then
        tryCatch
          (let encodedData = drop 8 hash
           in andThen (andThen (atob encodedData) jsonParse) (\<lambda>v. Inr (Some v, [])))
          (\<lambda>e. Inr (None, [e]))
      else Inr (None, []))"

subsection \<open>Notions of the specification\<close>

text \<open>A high factor: its average is at least 3. The count of high factors of a result.\<close>

definition isHigh :: "string \<times> FactorResult \<Rightarrow> bool" where
  "isHigh e = js_ge (average (snd e)) (Num 3)"

definition countHigh :: "FactorResult obj \<Rightarrow> nat" where
  "countHigh fs = length (filter isHigh fs)"

text \<open>The sum of the per-factor scores of a result.\<close>

definition sumFactorScores :: "FactorResult obj \<Rightarrow> int" where
  "sumFactorScores fs = sum_list (map (\<lambda>e. score (snd e)) fs)"

text \<open>
  The entries of an object have pairwise distinct keys, and \<^verbatim>\<open>__proto__\<close> is not a
  factor name.
\<close>

definition plainKeys :: "(string \<times> int list) list \<Rightarrow> bool" where
  "plainKeys fi = (distinct (map fst fi) \<and> ''__proto__'' \<notin> set (map fst fi))"

text \<open>The invariant of the factor index table: its index lists partition the item ids
  1..90; and its two weaker parts, ids within 1..90 and no factor without items.\<close>

definition partitionsItems :: "(string \<times> int list) list \<Rightarrow> bool" where
  "partitionsItems fi = (sort (concat (map snd fi)) = [1..90])"

definition itemsInRange :: "(string \<times> int list) list \<Rightarrow> bool" where
  "itemsInRange fi = list_all (\<lambda>index. 1 \<le> index \<and> index \<le> 90) (concat (map snd fi))"

definition nonemptyFactors :: "(string \<times> int list) list \<Rightarrow> bool" where
  "nonemptyFactors fi = list_all (\<lambda>e. snd e \<noteq> []) fi"

text \<open>
  Entry \<open>i\<close> of a result's factors is the first one at the maximum: it is a high factor,
  no high factor has a greater average, and no high factor before it has the same
  average.
\<close>

definition firstAtMaximum :: "FactorResult obj \<Rightarrow> nat \<Rightarrow> bool" where
  "firstAtMaximum fs i \<longleftrightarrow>
     i < length fs \<and> isHigh (fs ! i) \<and>
     list_all (\<lambda>e. isHigh e \<longrightarrow> js_ge (average (snd (fs ! i))) (average (snd e))) fs \<and>
     list_all (\<lambda>e. isHigh e \<longrightarrow> average (snd e) \<noteq> average (snd (fs ! i))) (take i fs)"

text \<open>
  The same position as the scan loop sees it: no high factor is strictly greater, and
  every high factor before it is strictly smaller.
\<close>

definition firstMaxAt :: "FactorResult obj \<Rightarrow> nat \<Rightarrow> bool" where
  "firstMaxAt fs i \<longleftrightarrow>
     i < length fs \<and> isHigh (fs ! i) \<and>
     (\<forall>j<length fs. isHigh (fs ! j) \<longrightarrow> \<not> js_gt (average (snd (fs ! j))) (average (snd (fs ! i)))) \<and>
     (\<forall>j<i. isHigh (fs ! j) \<longrightarrow> js_gt (average (snd (fs ! i))) (average (snd (fs ! j))))"

text \<open>A vector of 20 answers 2 and 70 answers 3, the all-zero and the all-four vector.\<close>

definition thresholdVector :: "answer list" where
  "thresholdVector = replicate 20 (Some 2) @ replicate 70 (Some 3)"

definition allZero :: "answer list" where
  "allZero = replicate 90 (Some 0)"

definition allFour :: "answer list" where
  "allFour = replicate 90 (Some 4)"

text \<open>
  A vector in which the second and the fourth factor of the table below tie at the
  average 4 and every other factor has the average 0.
\<close>

definition tieVector :: "answer list" where
  "tieVector =
     map (\<lambda>q. if snd q = lit_obsessive \<or> snd q = lit_depression then Some 4 else Some 0) questions"

text \<open>A vector of 93 entries: the all-four vector followed by 3, a missing entry and 2.\<close>

definition overLong :: "answer list" where
  "overLong = allFour @ [Some 3, None, Some 2]"

section \<open>Properties\<close>

subsection \<open>The scan of determineRiskLevel\<close>

lemma scanStep_count:
  "highFactorCount (scanStep s e) = highFactorCount s + (if isHigh e then 1 else 0)"
  by (cases e) (simp add: scanStep_def isHigh_def Let_def)

lemma foldl_scanStep_count:
  "highFactorCount (foldl scanStep s fs) = highFactorCount s + countHigh fs"
  by (induction fs arbitrary: s) (simp_all add: countHigh_def scanStep_count)

lemma scanFactors_count: "highFactorCount (scanFactors fs) = countHigh fs"
  by (simp add: scanFactors_def foldl_scanStep_count)

lemma riskLevel_calculateResult:
  "riskLevel (calculateResult fi now answers) =
     determineRiskLevel (totalScore (calculateResult fi now answers))
       (factors (calculateResult fi now answers))"
  by (simp add: calculateResult_def Let_def)

lemma determineRiskLevel_table:
  "(RiskLevel.level (determineRiskLevel t fs), recommendProfessional (determineRiskLevel t fs)) =
     (if 250 \<le> t \<or> 3 \<le> countHigh fs then (lit_severe, True)
      else if 200 \<le> t \<or> 2 \<le> countHigh fs then (lit_moderate, True)
      else if 160 \<le> t \<or> 1 \<le> countHigh fs then (lit_mild, False)
      else (lit_none, False))"
  by (simp add: determineRiskLevel_def Let_def scanFactors_count)

subsection \<open>The decision table\<close>

text \<open>
  Claim C1. For every factor table, clock reading and answer vector, the level and the
  recommendProfessional flag of the result follow the decision table, read top to
  bottom with the first match winning: total score at least 250 or at least 3 high
  factors gives severe and true; else at least 200 or at least 2 gives moderate and
  true; else at least 160 or at least 1 gives mild and false; else no marked distress
  and false. The count of high factors is the number of factors of the result whose
  average is at least 3.
\<close>

theorem calculateResult_decision_table:
  "(RiskLevel.level (riskLevel (calculateResult fi now answers)),
    recommendProfessional (riskLevel (calculateResult fi now answers))) =
     (if 250 \<le> totalScore (calculateResult fi now answers) \<or>
         3 \<le> countHigh (factors (calculateResult fi now answers)) then (lit_severe, True)
      else if 200 \<le> totalScore (calculateResult fi now answers) \<or>
         2 \<le> countHigh (factors (calculateResult fi now answers)) then (lit_moderate, True)
      else if 160 \<le> totalScore (calculateResult fi now answers) \<or>
         1 \<le> countHigh (factors (calculateResult fi now answers)) then (lit_mild, False)
      else (lit_none, False))"
  unfolding riskLevel_calculateResult by (rule determineRiskLevel_table)

subsection \<open>Sums and the factor table\<close>

lemma foldl_plus_sum_list:
  "foldl (\<lambda>sum x. sum + f x) a xs = a + sum_list (map f xs)" for a :: int
  by (induction xs arbitrary: a) simp_all

lemma totalScore_sum_list:
  "totalScore (calculateResult fi now answers) = sum_list (map orZero answers)"
  by (simp add: calculateResult_def Let_def foldl_plus_sum_list)

lemma score_factorEntry:
  "score (factorEntry answers indices) =
     sum_list (map (\<lambda>index. orZero (js_index answers (index - 1))) indices)"
  using foldl_plus_sum_list [of "\<lambda>x. x" 0]
  by (simp add: factorEntry_def Let_def)

lemma obj_update_fresh:
  "k \<notin> set (map fst ob) \<Longrightarrow> obj_update k v ob = ob @ [(k, v)]"
  by (induction ob) auto

lemma foldl_obj_set_fresh:
  "distinct (map fst fi) \<Longrightarrow> ''__proto__'' \<notin> set (map fst fi) \<Longrightarrow>
   set (map fst fi) \<inter> set (map fst acc) = {} \<Longrightarrow>
   foldl (\<lambda>fs e. case e of (factorName, indices) \<Rightarrow> obj_set fs factorName (h indices)) acc fi =
     acc @ map (\<lambda>e. (fst e, h (snd e))) fi"
proof (induction fi arbitrary: acc)
  case Nil
  then show ?case by simp
next
  case (Cons e fi)
  obtain k idx where e: "e = (k, idx)" by (cases e)
  from Cons.prems e have fresh: "k \<notin> set (map fst acc)" and np: "k \<noteq> ''__proto__''"
    by auto
  have step: "obj_set acc k (h idx) = acc @ [(k, h idx)]"
    using fresh np by (simp add: obj_set_def obj_update_fresh)
  have disj: "set (map fst fi) \<inter> set (map fst (acc @ [(k, h idx)])) = {}"
    using Cons.prems e by auto
  have "foldl (\<lambda>fs e. case e of (factorName, indices) \<Rightarrow> obj_set fs factorName (h indices))
          (acc @ [(k, h idx)]) fi = (acc @ [(k, h idx)]) @ map (\<lambda>e. (fst e, h (snd e))) fi"
    using Cons.prems disj by (intro Cons.IH) auto
  then show ?case by (simp add: e step)
qed

lemma buildFactors_map:
  "plainKeys fi \<Longrightarrow>
   buildFactors fi answers = map (\<lambda>e. (fst e, factorEntry answers (snd e))) fi"
  using foldl_obj_set_fresh [of fi "[]" "factorEntry answers"]
  by (simp add: buildFactors_def plainKeys_def)

lemma factors_calculateResult:
  "factors (calculateResult fi now answers) = buildFactors fi answers"
  by (simp add: calculateResult_def Let_def)

lemma sumFactorScores_concat:
  "plainKeys fi \<Longrightarrow>
   sumFactorScores (buildFactors fi answers) =
     sum_list (map (\<lambda>index. orZero (js_index answers (index - 1))) (concat (map snd fi)))"
proof -
  assume pk: "plainKeys fi"
  have "sum_list (map (\<lambda>e. sum_list (map g (snd e))) fi') = sum_list (map g (concat (map snd fi')))"
    for g :: "int \<Rightarrow> int" and fi' :: "(string \<times> int list) list"
    by (induction fi') simp_all
  then show ?thesis
    by (simp add: buildFactors_map [OF pk] sumFactorScores_def score_factorEntry o_def)
qed

lemma sum_list_map_mset_cong:
  "mset xs = mset ys \<Longrightarrow> sum_list (map g xs) = sum_list (map g ys)" for g :: "'a \<Rightarrow> int"
proof -
  assume "mset xs = mset ys"
  then have "sum_mset (image_mset g (mset xs)) = sum_mset (image_mset g (mset ys))" by simp
  then show ?thesis by (simp flip: mset_map add: sum_mset_sum_list)
qed

lemma partition_sum:
  "partitionsItems fi \<Longrightarrow>
   sum_list (map g (concat (map snd fi))) = sum_list (map g [1..90])" for g :: "int \<Rightarrow> int"
proof -
  assume "partitionsItems fi"
  then have "mset (concat (map snd fi)) = mset [1..90]"
    unfolding partitionsItems_def by (metis mset_sort)
  then show ?thesis by (rule sum_list_map_mset_cong)
qed

lemma read_items:
  "90 \<le> length answers \<Longrightarrow>
   map (\<lambda>index. orZero (js_index answers (index - 1))) [1..90] = map orZero (take 90 answers)"
  by (rule nth_equalityI) (simp_all add: js_index_def)

subsection \<open>The order of numbers and the first maximum\<close>

lemma js_gt_irrefl: "\<not> js_gt a a"
  by (cases a) simp_all

lemma js_gt_high_zero: "js_ge a (Num 3) \<Longrightarrow> js_gt a (Num 0)"
  by (cases a) simp_all

lemma js_not_gt_trans: "js_gt e i \<Longrightarrow> \<not> js_gt j i \<Longrightarrow> js_ge j (Num 3) \<Longrightarrow> \<not> js_gt j e"
  by (cases e; cases i; cases j) simp_all

lemma countHigh_zero_iff: "countHigh fs = 0 \<longleftrightarrow> (\<forall>e \<in> set fs. \<not> isHigh e)"
  by (simp add: countHigh_def filter_empty_conv)

lemma countHigh_snoc: "countHigh (fs @ [e]) = countHigh fs + (if isHigh e then 1 else 0)"
  by (simp add: countHigh_def)

lemma scanStep_low: "\<not> isHigh e \<Longrightarrow> scanStep s e = s"
  by (cases e) (simp add: scanStep_def isHigh_def)

lemma scanStep_high_gt:
  "isHigh e \<Longrightarrow> js_gt (average (snd e)) (maxFactorScore s) \<Longrightarrow>
   maxFactorName (scanStep s e) = fst e \<and> maxFactorScore (scanStep s e) = average (snd e)"
  by (cases e) (simp add: scanStep_def isHigh_def Let_def)

lemma scanStep_high_le:
  "isHigh e \<Longrightarrow> \<not> js_gt (average (snd e)) (maxFactorScore s) \<Longrightarrow>
   maxFactorName (scanStep s e) = maxFactorName s \<and> maxFactorScore (scanStep s e) = maxFactorScore s"
  by (cases e) (simp add: scanStep_def isHigh_def Let_def)

lemma firstMaxAt_snoc_keep:
  assumes i: "firstMaxAt fs i"
    and e: "isHigh e \<longrightarrow> \<not> js_gt (average (snd e)) (average (snd (fs ! i)))"
  shows "firstMaxAt (fs @ [e]) i"
  unfolding firstMaxAt_def
proof (intro conjI allI impI)
  have il: "i < length fs" using i by (simp add: firstMaxAt_def)
  then show "i < length (fs @ [e])" by simp
  show "isHigh ((fs @ [e]) ! i)" using i il by (simp add: firstMaxAt_def nth_append)
  show "\<not> js_gt (average (snd ((fs @ [e]) ! j))) (average (snd ((fs @ [e]) ! i)))"
    if "j < length (fs @ [e])" "isHigh ((fs @ [e]) ! j)" for j
  proof (cases "j < length fs")
    case True
    then show ?thesis using i il that by (simp add: firstMaxAt_def nth_append)
  next
    case False
    then have "j = length fs" using that by simp
    then show ?thesis using e il that by (simp add: nth_append)
  qed
  show "js_gt (average (snd ((fs @ [e]) ! i))) (average (snd ((fs @ [e]) ! j)))"
    if "j < i" "isHigh ((fs @ [e]) ! j)" for j
  proof -
    have "j < length fs" using that il by simp
    then show ?thesis using i il that by (simp add: firstMaxAt_def nth_append)
  qed
qed

lemma firstMaxAt_snoc_first:
  assumes low: "\<forall>x \<in> set fs. \<not> isHigh x" and e: "isHigh e"
  shows "firstMaxAt (fs @ [e]) (length fs)"
  unfolding firstMaxAt_def
proof (intro conjI allI impI)
  show "length fs < length (fs @ [e])" by simp
  show "isHigh ((fs @ [e]) ! length fs)" using e by simp
  show "\<not> js_gt (average (snd ((fs @ [e]) ! j))) (average (snd ((fs @ [e]) ! length fs)))"
    if "j < length (fs @ [e])" "isHigh ((fs @ [e]) ! j)" for j
  proof (cases "j < length fs")
    case True
    then have "\<not> isHigh (fs ! j)" using low by simp
    then show ?thesis using True that by (simp add: nth_append)
  next
    case False
    then have "j = length fs" using that by simp
    then show ?thesis by (simp add: js_gt_irrefl)
  qed
  show "js_gt (average (snd ((fs @ [e]) ! length fs))) (average (snd ((fs @ [e]) ! j)))"
    if "j < length fs" "isHigh ((fs @ [e]) ! j)" for j
  proof -
    have "\<not> isHigh (fs ! j)" using low that by simp
    then show ?thesis using that by (simp add: nth_append)
  qed
qed

lemma js_gt_above_max:
  "js_gt e i \<Longrightarrow> \<not> js_gt j i \<Longrightarrow> js_ge j (Num 3) \<Longrightarrow> js_ge i (Num 3) \<Longrightarrow> js_gt e j"
  by (cases e; cases i; cases j) simp_all

lemma firstMaxAt_snoc_new:
  assumes i: "firstMaxAt fs i" and e: "isHigh e"
    and gt: "js_gt (average (snd e)) (average (snd (fs ! i)))"
  shows "firstMaxAt (fs @ [e]) (length fs)"
  unfolding firstMaxAt_def
proof (intro conjI allI impI)
  have hi: "js_ge (average (snd (fs ! i))) (Num 3)"
    using i by (simp add: firstMaxAt_def isHigh_def)
  have mx: "\<not> js_gt (average (snd (fs ! j))) (average (snd (fs ! i)))"
    if "j < length fs" "isHigh (fs ! j)" for j
    using i that by (simp add: firstMaxAt_def)
  show "length fs < length (fs @ [e])" by simp
  show "isHigh ((fs @ [e]) ! length fs)" using e by simp
  show "\<not> js_gt (average (snd ((fs @ [e]) ! j))) (average (snd ((fs @ [e]) ! length fs)))"
    if "j < length (fs @ [e])" "isHigh ((fs @ [e]) ! j)" for j
  proof (cases "j < length fs")
    case True
    then have hj: "isHigh (fs ! j)" using that by (simp add: nth_append)
    have "\<not> js_gt (average (snd (fs ! j))) (average (snd e))"
      using js_not_gt_trans [OF gt mx [OF True hj]] hj by (simp add: isHigh_def)
    then show ?thesis using True by (simp add: nth_append)
  next
    case False
    then have "j = length fs" using that by simp
    then show ?thesis by (simp add: js_gt_irrefl)
  qed
  show "js_gt (average (snd ((fs @ [e]) ! length fs))) (average (snd ((fs @ [e]) ! j)))"
    if "j < length fs" "isHigh ((fs @ [e]) ! j)" for j
  proof -
    have hj: "isHigh (fs ! j)" using that by (simp add: nth_append)
    have "js_gt (average (snd e)) (average (snd (fs ! j)))"
      using js_gt_above_max [OF gt mx [OF that(1) hj]] hj hi by (simp add: isHigh_def)
    then show ?thesis using that by (simp add: nth_append)
  qed
qed

lemma scan_invariant:
  "(countHigh fs = 0 \<and> maxFactorName (scanFactors fs) = [] \<and> maxFactorScore (scanFactors fs) = Num 0) \<or>
   (\<exists>i. firstMaxAt fs i \<and> maxFactorName (scanFactors fs) = fst (fs ! i) \<and>
        maxFactorScore (scanFactors fs) = average (snd (fs ! i)))"
proof (induction fs rule: rev_induct)
  case Nil
  then show ?case by (simp add: scanFactors_def countHigh_def)
next
  case (snoc e fs)
  have unfold: "scanFactors (fs @ [e]) = scanStep (scanFactors fs) e"
    by (simp add: scanFactors_def)
  from snoc.IH show ?case
  proof
    assume none: "countHigh fs = 0 \<and> maxFactorName (scanFactors fs) = [] \<and>
      maxFactorScore (scanFactors fs) = Num 0"
    show ?thesis
    proof (cases "isHigh e")
      case False
      then have "scanFactors (fs @ [e]) = scanFactors fs"
        by (simp add: unfold scanStep_low)
      then show ?thesis using none False by (simp add: countHigh_snoc)
    next
      case True
      have gt: "js_gt (average (snd e)) (maxFactorScore (scanFactors fs))"
        using none True by (simp add: isHigh_def js_gt_high_zero)
      have low: "\<forall>x \<in> set fs. \<not> isHigh x"
        using none by (simp add: countHigh_zero_iff)
      have fm: "firstMaxAt (fs @ [e]) (length fs)"
        using low True by (rule firstMaxAt_snoc_first)
      have "maxFactorName (scanFactors (fs @ [e])) = fst ((fs @ [e]) ! length fs) \<and>
            maxFactorScore (scanFactors (fs @ [e])) = average (snd ((fs @ [e]) ! length fs))"
        using scanStep_high_gt [OF True gt] by (simp add: unfold)
      with fm show ?thesis by blast
    qed
  next
    assume "\<exists>i. firstMaxAt fs i \<and> maxFactorName (scanFactors fs) = fst (fs ! i) \<and>
      maxFactorScore (scanFactors fs) = average (snd (fs ! i))"
    then obtain i where i: "firstMaxAt fs i" "maxFactorName (scanFactors fs) = fst (fs ! i)"
      "maxFactorScore (scanFactors fs) = average (snd (fs ! i))" by blast
    have il: "i < length fs" using i(1) by (simp add: firstMaxAt_def)
    have nth_i: "(fs @ [e]) ! i = fs ! i" using il by (simp add: nth_append)
    show ?thesis
    proof (cases "isHigh e \<and> js_gt (average (snd e)) (maxFactorScore (scanFactors fs))")
      case True
      then have h: "isHigh e" and gt: "js_gt (average (snd e)) (maxFactorScore (scanFactors fs))"
        by simp_all
      have fm: "firstMaxAt (fs @ [e]) (length fs)"
        using i(1) h gt [unfolded i(3)] by (rule firstMaxAt_snoc_new)
      have "maxFactorName (scanFactors (fs @ [e])) = fst ((fs @ [e]) ! length fs) \<and>
            maxFactorScore (scanFactors (fs @ [e])) = average (snd ((fs @ [e]) ! length fs))"
        using scanStep_high_gt [OF h gt] by (simp add: unfold)
      with fm show ?thesis by blast
    next
      case False
      then have keep: "isHigh e \<longrightarrow> \<not> js_gt (average (snd e)) (average (snd (fs ! i)))"
        by (simp add: i(3))
      have fm: "firstMaxAt (fs @ [e]) i"
        using i(1) keep by (rule firstMaxAt_snoc_keep)
      have "scanFactors (fs @ [e]) = scanFactors fs \<or>
            (isHigh e \<and> \<not> js_gt (average (snd e)) (maxFactorScore (scanFactors fs)))"
        using False scanStep_low [of e "scanFactors fs"] by (auto simp: unfold)
      then have "maxFactorName (scanFactors (fs @ [e])) = maxFactorName (scanFactors fs) \<and>
            maxFactorScore (scanFactors (fs @ [e])) = maxFactorScore (scanFactors fs)"
        using scanStep_high_le [of e "scanFactors fs"] by (auto simp: unfold)
      then have "maxFactorName (scanFactors (fs @ [e])) = fst ((fs @ [e]) ! i) \<and>
            maxFactorScore (scanFactors (fs @ [e])) = average (snd ((fs @ [e]) ! i))"
        using i(2,3) nth_i by simp
      with fm show ?thesis by blast
    qed
  qed
qed

lemma js_ge_not_gt: "js_ge a b \<Longrightarrow> \<not> js_gt b a"
  by (cases a; cases b) simp_all

lemma js_ge_neq_gt: "js_ge a b \<Longrightarrow> b \<noteq> a \<Longrightarrow> js_gt a b"
  by (cases a; cases b) simp_all

lemma firstAtMaximum_firstMaxAt:
  assumes "firstAtMaximum fs i"
  shows "firstMaxAt fs i"
  unfolding firstMaxAt_def
proof (intro conjI allI impI)
  from assms show il: "i < length fs" and "isHigh (fs ! i)"
    by (simp_all add: firstAtMaximum_def)
  from assms have mx: "\<forall>e \<in> set fs. isHigh e \<longrightarrow> js_ge (average (snd (fs ! i))) (average (snd e))"
    by (simp add: firstAtMaximum_def list_all_iff)
  from assms have fst: "\<forall>e \<in> set (take i fs). isHigh e \<longrightarrow> average (snd e) \<noteq> average (snd (fs ! i))"
    by (simp add: firstAtMaximum_def list_all_iff)
  show "\<not> js_gt (average (snd (fs ! j))) (average (snd (fs ! i)))"
    if "j < length fs" "isHigh (fs ! j)" for j
    using mx that js_ge_not_gt by (metis nth_mem)
  show "js_gt (average (snd (fs ! i))) (average (snd (fs ! j)))"
    if "j < i" "isHigh (fs ! j)" for j
  proof -
    have jl: "j < length fs" using that il by simp
    have "fs ! j \<in> set (take i fs)"
      using that il by (metis nth_take length_take min.absorb2 less_imp_le nth_mem)
    then have "average (snd (fs ! j)) \<noteq> average (snd (fs ! i))"
      using fst that by blast
    moreover have "js_ge (average (snd (fs ! i))) (average (snd (fs ! j)))"
      using mx that jl by (metis nth_mem)
    ultimately show ?thesis by (rule js_ge_neq_gt [rotated])
  qed
qed

lemma firstMaxAt_less: "firstMaxAt fs i \<Longrightarrow> i < length fs"
  unfolding firstMaxAt_def by blast

lemma firstMaxAt_high: "firstMaxAt fs i \<Longrightarrow> isHigh (fs ! i)"
  unfolding firstMaxAt_def by blast

lemma firstMaxAt_max:
  "firstMaxAt fs i \<Longrightarrow> j < length fs \<Longrightarrow> isHigh (fs ! j) \<Longrightarrow>
   \<not> js_gt (average (snd (fs ! j))) (average (snd (fs ! i)))"
  unfolding firstMaxAt_def by blast

lemma firstMaxAt_before:
  "firstMaxAt fs i \<Longrightarrow> j < i \<Longrightarrow> isHigh (fs ! j) \<Longrightarrow>
   js_gt (average (snd (fs ! i))) (average (snd (fs ! j)))"
  unfolding firstMaxAt_def by blast

lemma firstMaxAt_unique:
  assumes i: "firstMaxAt fs i" and k: "firstMaxAt fs k"
  shows "i = k"
proof (rule ccontr)
  assume "i \<noteq> k"
  then consider "i < k" | "k < i" by linarith
  then show False
  proof cases
    case 1
    have "js_gt (average (snd (fs ! k))) (average (snd (fs ! i)))"
      using k 1 firstMaxAt_high [OF i] by (rule firstMaxAt_before)
    moreover have "\<not> js_gt (average (snd (fs ! k))) (average (snd (fs ! i)))"
      using i firstMaxAt_less [OF k] firstMaxAt_high [OF k] by (rule firstMaxAt_max)
    ultimately show False by simp
  next
    case 2
    have "js_gt (average (snd (fs ! i))) (average (snd (fs ! k)))"
      using i 2 firstMaxAt_high [OF k] by (rule firstMaxAt_before)
    moreover have "\<not> js_gt (average (snd (fs ! i))) (average (snd (fs ! k)))"
      using k firstMaxAt_less [OF i] firstMaxAt_high [OF i] by (rule firstMaxAt_max)
    ultimately show False by simp
  qed
qed

lemma firstMaxAt_countHigh:
  assumes "firstMaxAt fs i"
  shows "1 \<le> countHigh fs"
proof -
  have "fs ! i \<in> set fs" using firstMaxAt_less [OF assms] by simp
  then have "countHigh fs \<noteq> 0"
    unfolding countHigh_zero_iff using firstMaxAt_high [OF assms] by blast
  then show ?thesis by simp
qed

lemma maxFactorName_firstMaxAt:
  assumes "firstMaxAt fs i"
  shows "maxFactorName (scanFactors fs) = fst (fs ! i)"
proof -
  have "countHigh fs \<noteq> 0" using firstMaxAt_countHigh [OF assms] by simp
  with scan_invariant [of fs] obtain k where k: "firstMaxAt fs k"
    "maxFactorName (scanFactors fs) = fst (fs ! k)" by blast
  have "k = i" using k(1) assms by (rule firstMaxAt_unique)
  with k(2) show ?thesis by simp
qed

lemma maxFactorName_no_high:
  assumes "countHigh fs = 0"
  shows "maxFactorName (scanFactors fs) = []"
proof -
  have "\<not> firstMaxAt fs k" for k
    using firstMaxAt_countHigh [of fs k] assms by auto
  with scan_invariant [of fs] show ?thesis by blast
qed

lemma determineRiskLevel_mainIssue:
  "mainIssue (determineRiskLevel t fs) =
     (if 160 \<le> t \<or> 1 \<le> countHigh fs then Some (maxFactorName (scanFactors fs)) else None)"
  by (simp add: determineRiskLevel_def Let_def scanFactors_count)

subsection \<open>The total score and the factor scores\<close>

text \<open>
  Claim C3. When the index lists of the factor table partition the item ids 1..90 (and
  the table is an object with ordinary keys), the total score of every answer vector of
  length 90 equals the sum of the scores of the factors of the result. The entries
  need not lie in 0..4 for this, and may be absent.
\<close>

theorem totalScore_eq_sum_of_factor_scores:
  assumes "plainKeys fi" and "partitionsItems fi" and "length answers = 90"
  shows "totalScore (calculateResult fi now answers) =
    sumFactorScores (factors (calculateResult fi now answers))"
proof -
  have "sumFactorScores (factors (calculateResult fi now answers)) =
      sum_list (map (\<lambda>index. orZero (js_index answers (index - 1))) [1..90])"
    using assms(1,2) by (simp add: factors_calculateResult sumFactorScores_concat partition_sum)
  also have "\<dots> = sum_list (map orZero (take 90 answers))"
    using assms(3) by (simp add: read_items)
  also have "\<dots> = totalScore (calculateResult fi now answers)"
    using assms(3) by (simp add: totalScore_sum_list)
  finally show ?thesis by simp
qed

theorem totalScore_eq_sum_of_factor_scores_witness:
  "plainKeys factorIndices \<and> partitionsItems factorIndices \<and> length thresholdVector = 90 \<and>
   totalScore (calculateResult factorIndices [] thresholdVector) =
     sumFactorScores (factors (calculateResult factorIndices [] thresholdVector))"
proof -
  have k: "plainKeys factorIndices" by code_simp
  have p: "partitionsItems factorIndices" by code_simp
  have l: "length thresholdVector = 90" by (simp add: thresholdVector_def)
  show ?thesis
    using totalScore_eq_sum_of_factor_scores [OF k p l] k p l by simp
qed

lemma orZero_case: "orZero a = (case a of None \<Rightarrow> 0 | Some v \<Rightarrow> v)"
  by (simp add: orZero_def split: option.splits)

lemma js_index_map:
  "js_index (map f xs) i = (if 0 \<le> i \<and> i < int (length xs) then f (xs ! nat i) else None)"
proof (cases "0 \<le> i \<and> i < int (length xs)")
  case True
  then have "nat i < length xs" by linarith
  then show ?thesis using True by (simp add: js_index_def)
next
  case False
  then show ?thesis by (auto simp: js_index_def)
qed

lemma orZero_idem: "orZero (Some (orZero a)) = orZero a"
  by (simp add: orZero_def split: option.splits)

lemma factorEntry_substitute:
  "factorEntry (map (\<lambda>a. Some (orZero a)) answers) indices = factorEntry answers indices"
proof -
  have "orZero (js_index (map (\<lambda>a. Some (orZero a)) answers) i) = orZero (js_index answers i)" for i
    unfolding js_index_map by (simp add: js_index_def orZero_idem)
  then show ?thesis by (simp add: factorEntry_def)
qed

subsection \<open>Missing entries\<close>

text \<open>
  Claim C7. The embedding of calculateResult is a total function on vectors whose
  entries are integers or absent: none of its operations has an error branch on such
  input. A missing entry counts as 0: the whole result is the one obtained from the
  vector in which every missing entry is replaced by 0, the total score is the sum of
  the entries with 0 for each missing one, and the score of a factor is the sum over
  its indices of the entry read there, with 0 for a missing one or a read outside the
  vector.
\<close>

theorem calculateResult_missing_as_zero:
  "calculateResult fi now answers =
     calculateResult fi now (map (\<lambda>a. Some (case a of None \<Rightarrow> 0 | Some v \<Rightarrow> v)) answers) \<and>
   totalScore (calculateResult fi now answers) =
     sum_list (map (\<lambda>a. case a of None \<Rightarrow> 0 | Some v \<Rightarrow> v) answers) \<and>
   score (factorEntry answers indices) =
     sum_list (map (\<lambda>index. case js_index answers (index - 1) of None \<Rightarrow> 0 | Some v \<Rightarrow> v) indices)"
proof -
  have sub: "(\<lambda>a. Some (case a of None \<Rightarrow> 0 | Some v \<Rightarrow> v)) = (\<lambda>a. Some (orZero a))"
    by (simp add: orZero_case)
  have tot: "sum_list (map orZero (map (\<lambda>a. Some (orZero a)) answers)) = sum_list (map orZero answers)"
    by (simp add: o_def orZero_idem)
  have pos: "filter gtOne (map (\<lambda>a. Some (orZero a)) answers) = map (\<lambda>a. Some (orZero a)) (filter gtOne answers)"
    by (induction answers) (auto simp: gtOne_def orZero_def split: option.splits)
  have fs: "buildFactors fi (map (\<lambda>a. Some (orZero a)) answers) = buildFactors fi answers"
    by (simp add: buildFactors_def factorEntry_substitute)
  have "calculateResult fi now (map (\<lambda>a. Some (orZero a)) answers) = calculateResult fi now answers"
    using tot pos fs by (simp add: calculateResult_def Let_def foldl_plus_sum_list)
  then show ?thesis
    by (simp add: sub totalScore_sum_list score_factorEntry flip: orZero_case)
qed

subsection \<open>Determinism\<close>

text \<open>
  Claim C8. Two calls of calculateResult on the same answer vector, at any two clock
  readings, give results that agree on the total score, the total average, the count
  of positive items, all factor results and the whole risk level: the results differ
  at most in the time stamp.
\<close>

theorem calculateResult_deterministic:
  "totalScore (calculateResult fi now1 answers) = totalScore (calculateResult fi now2 answers) \<and>
   totalAverage (calculateResult fi now1 answers) = totalAverage (calculateResult fi now2 answers) \<and>
   positiveItems (calculateResult fi now1 answers) = positiveItems (calculateResult fi now2 answers) \<and>
   factors (calculateResult fi now1 answers) = factors (calculateResult fi now2 answers) \<and>
   riskLevel (calculateResult fi now1 answers) = riskLevel (calculateResult fi now2 answers) \<and>
   calculateResult fi now1 answers = (calculateResult fi now2 answers)\<lparr>timestamp := now1\<rparr>"
  by (simp add: calculateResult_def Let_def)

lemma partitionsItems_range:
  assumes "partitionsItems fi" and "e \<in> set fi" and "index \<in> set (snd e)"
  shows "1 \<le> index \<and> index \<le> 90"
proof -
  have "set (concat (map snd fi)) = set [1..90]"
    using assms(1) unfolding partitionsItems_def by (metis set_sort)
  moreover have "index \<in> set (concat (map snd fi))"
    using assms(2,3) by auto
  ultimately show ?thesis by simp
qed

lemma js_index_take:
  "1 \<le> index \<Longrightarrow> index \<le> 90 \<Longrightarrow> 90 \<le> length answers \<Longrightarrow>
   js_index (take 90 answers) (index - 1) = js_index answers (index - 1)"
  by (simp add: js_index_def)

lemma factorEntry_take:
  assumes "\<forall>index \<in> set indices. 1 \<le> index \<and> index \<le> 90" and "90 \<le> length answers"
  shows "factorEntry (take 90 answers) indices = factorEntry answers indices"
proof -
  have "map (\<lambda>index. orZero (js_index (take 90 answers) (index - 1))) indices =
        map (\<lambda>index. orZero (js_index answers (index - 1))) indices"
    using assms by (simp add: js_index_take)
  then show ?thesis by (simp only: factorEntry_def)
qed

lemma buildFactors_take:
  assumes "partitionsItems fi" and "90 \<le> length answers"
  shows "buildFactors fi (take 90 answers) = buildFactors fi answers"
  unfolding buildFactors_def
proof (rule foldl_cong [OF refl refl])
  fix fs e assume e: "e \<in> set fi"
  have "factorEntry (take 90 answers) (snd e) = factorEntry answers (snd e)"
    using partitionsItems_range [OF assms(1) e] assms(2) by (intro factorEntry_take) simp_all
  then show "(case e of (factorName, indices) \<Rightarrow> obj_set fs factorName (factorEntry (take 90 answers) indices)) =
        (case e of (factorName, indices) \<Rightarrow> obj_set fs factorName (factorEntry answers indices))"
    by (cases e) simp
qed

lemma overlength_split:
  assumes "plainKeys fi" and "partitionsItems fi" and "90 \<le> length answers"
  shows "totalScore (calculateResult fi now answers) =
     sumFactorScores (factors (calculateResult fi now answers)) + sum_list (map orZero (drop 90 answers))"
proof -
  have "sumFactorScores (factors (calculateResult fi now answers)) =
      sum_list (map (\<lambda>index. orZero (js_index answers (index - 1))) [1..90])"
    using assms(1,2) by (simp add: factors_calculateResult sumFactorScores_concat partition_sum)
  also have "\<dots> = sum_list (map orZero (take 90 answers))"
    using assms(3) by (simp add: read_items)
  finally have f: "sumFactorScores (factors (calculateResult fi now answers)) =
      sum_list (map orZero (take 90 answers))" .
  have "sum_list (map orZero answers) =
      sum_list (map orZero (take 90 answers @ drop 90 answers))" by simp
  also have "\<dots> = sum_list (map orZero (take 90 answers)) + sum_list (map orZero (drop 90 answers))"
    unfolding map_append sum_list_append ..
  finally show ?thesis by (simp add: totalScore_sum_list f)
qed

subsection \<open>Vectors longer than 90\<close>

text \<open>
  Claim C9. For a factor table that partitions 1..90 and every answer vector with more
  than 90 entries: the total score is the sum of all entries, those beyond index 89
  included; the factor results are those of the first 90 entries alone; the total
  average is the total score divided by 90; the total score exceeds the sum of the
  factor scores by the sum of the entries beyond index 89; and there is such a vector
  whose total score is strictly greater than the sum of its factor scores.
\<close>

theorem overlength_totalScore:
  assumes "plainKeys fi" and "partitionsItems fi" and "90 < length answers"
  shows "totalScore (calculateResult fi now answers) = sum_list (map orZero answers) \<and>
    factors (calculateResult fi now answers) = factors (calculateResult fi now (take 90 answers)) \<and>
    totalAverage (calculateResult fi now answers) =
      of_int (totalScore (calculateResult fi now answers)) / 90 \<and>
    totalScore (calculateResult fi now answers) =
      sumFactorScores (factors (calculateResult fi now answers)) +
      sum_list (map orZero (drop 90 answers)) \<and>
    (\<exists>longer. 90 < length longer \<and>
       sumFactorScores (factors (calculateResult fi now longer)) <
       totalScore (calculateResult fi now longer))"
proof (intro conjI)
  show "totalScore (calculateResult fi now answers) = sum_list (map orZero answers)"
    by (rule totalScore_sum_list)
  show "factors (calculateResult fi now answers) = factors (calculateResult fi now (take 90 answers))"
    using assms(2,3) by (simp add: factors_calculateResult buildFactors_take)
  show "totalAverage (calculateResult fi now answers) =
      of_int (totalScore (calculateResult fi now answers)) / 90"
    by (simp add: calculateResult_def Let_def)
  show "totalScore (calculateResult fi now answers) =
      sumFactorScores (factors (calculateResult fi now answers)) +
      sum_list (map orZero (drop 90 answers))"
    using assms by (intro overlength_split) simp_all
  have "totalScore (calculateResult fi now (replicate 91 (Some 1))) =
      sumFactorScores (factors (calculateResult fi now (replicate 91 (Some 1)))) +
      sum_list (map orZero (drop 90 (replicate 91 (Some 1))))"
    using assms(1,2) by (intro overlength_split) simp_all
  moreover have "sum_list (map orZero (drop 90 (replicate 91 (Some 1)))) = 1"
    by (simp add: orZero_def)
  ultimately have "sumFactorScores (factors (calculateResult fi now (replicate 91 (Some 1)))) <
       totalScore (calculateResult fi now (replicate 91 (Some 1)))" by simp
  moreover have "90 < length (replicate 91 (Some (1::int)))" by simp
  ultimately show "\<exists>longer. 90 < length longer \<and>
       sumFactorScores (factors (calculateResult fi now longer)) <
       totalScore (calculateResult fi now longer)" by blast
qed

theorem overlength_totalScore_witness:
  "plainKeys factorIndices \<and> partitionsItems factorIndices \<and> 90 < length overLong \<and>
   totalScore (calculateResult factorIndices [] overLong) = 365 \<and>
   sumFactorScores (factors (calculateResult factorIndices [] overLong)) = 360"
proof -
  have k: "plainKeys factorIndices" by code_simp
  have p: "partitionsItems factorIndices" by code_simp
  have l: "90 < length overLong" by (simp add: overLong_def allFour_def)
  have t: "sum_list (map orZero overLong) = 365"
    by (simp add: overLong_def allFour_def orZero_def sum_list_replicate)
  have d: "sum_list (map orZero (drop 90 overLong)) = 5"
    by (simp add: overLong_def allFour_def orZero_def)
  from overlength_totalScore [OF k p l, of "[]"]
  have "totalScore (calculateResult factorIndices [] overLong) = sum_list (map orZero overLong)"
    and "totalScore (calculateResult factorIndices [] overLong) =
      sumFactorScores (factors (calculateResult factorIndices [] overLong)) +
      sum_list (map orZero (drop 90 overLong))"
    by blast+
  with t d have "totalScore (calculateResult factorIndices [] overLong) = 365"
    and "sumFactorScores (factors (calculateResult factorIndices [] overLong)) = 360"
    by linarith+
  with k p l show ?thesis by blast
qed

lemma set_obj_update: "set (obj_update k v ob) \<subseteq> insert (k, v) (set ob)"
  by (induction ob) auto

lemma set_obj_set: "set (obj_set ob k v) \<subseteq> insert (k, v) (set ob)"
  using set_obj_update [of k v ob] by (auto simp: obj_set_def)

lemma set_foldl_obj_set:
  "set (foldl (\<lambda>fs e. case e of (factorName, indices) \<Rightarrow> obj_set fs factorName (h indices)) acc fi)
     \<subseteq> set acc \<union> (\<lambda>e. (fst e, h (snd e))) ` set fi"
proof (induction fi arbitrary: acc)
  case Nil
  then show ?case by simp
next
  case (Cons e fi)
  obtain k idx where e: "e = (k, idx)" by (cases e)
  have "set (foldl (\<lambda>fs e. case e of (factorName, indices) \<Rightarrow> obj_set fs factorName (h indices))
           (obj_set acc k (h idx)) fi)
        \<subseteq> set (obj_set acc k (h idx)) \<union> (\<lambda>e. (fst e, h (snd e))) ` set fi"
    by (rule Cons.IH)
  also have "\<dots> \<subseteq> insert (k, h idx) (set acc) \<union> (\<lambda>e. (fst e, h (snd e))) ` set fi"
    using set_obj_set [of acc k "h idx"] by blast
  finally show ?case by (auto simp: e)
qed

lemma buildFactors_entries:
  assumes "x \<in> set (buildFactors fi answers)"
  obtains e where "e \<in> set fi" and "x = (fst e, factorEntry answers (snd e))"
  using assms set_foldl_obj_set [of "factorEntry answers" "[]" fi]
  unfolding buildFactors_def by auto

lemma js_index_replicate:
  "js_index (replicate n a) i = (if 0 \<le> i \<and> i < int n then a else None)"
proof (cases "0 \<le> i \<and> i < int n")
  case True
  then have "nat i < n" by linarith
  then show ?thesis using True by (simp add: js_index_def)
next
  case False
  then show ?thesis by (auto simp: js_index_def)
qed

lemma orZero_allZero: "orZero (js_index allZero i) = 0"
  by (simp add: js_index_replicate allZero_def orZero_def)

lemma factorEntry_allZero:
  "factorEntry allZero indices =
     \<lparr>score = 0, average = (if indices = [] then NaN else Num 0), itemCount = length indices\<rparr>"
  by (simp add: factorEntry_def orZero_allZero foldl_plus_sum_list [of "\<lambda>x. x" 0, simplified])

lemma allZero_no_high: "countHigh (buildFactors fi allZero) = 0"
  unfolding countHigh_zero_iff
proof
  fix x assume "x \<in> set (buildFactors fi allZero)"
  then obtain e where "x = (fst e, factorEntry allZero (snd e))"
    by (rule buildFactors_entries)
  then show "\<not> isHigh x" by (simp add: isHigh_def factorEntry_allZero)
qed

subsection \<open>The all-zero vector\<close>

text \<open>
  Claim C5. For the vector of 90 answers 0 the result has total score 0, no positive
  item, level no marked distress, mainIssue null and recommendProfessional false, for
  every factor table; and every factor average is 0 when no factor of the table is
  without items (the average of a factor without items is NaN).
\<close>

theorem all_zero_vector:
  "totalScore (calculateResult fi now allZero) = 0 \<and>
   positiveItems (calculateResult fi now allZero) = 0 \<and>
   (nonemptyFactors fi \<longrightarrow>
      list_all (\<lambda>e. average (snd e) = Num 0) (factors (calculateResult fi now allZero))) \<and>
   RiskLevel.level (riskLevel (calculateResult fi now allZero)) = lit_none \<and>
   mainIssue (riskLevel (calculateResult fi now allZero)) = None \<and>
   recommendProfessional (riskLevel (calculateResult fi now allZero)) = False"
proof -
  have t: "totalScore (calculateResult fi now allZero) = 0"
    by (simp add: totalScore_sum_list allZero_def orZero_def sum_list_replicate)
  have p: "positiveItems (calculateResult fi now allZero) = 0"
    by (simp add: calculateResult_def Let_def allZero_def gtOne_def)
  have a: "list_all (\<lambda>e. average (snd e) = Num 0) (factors (calculateResult fi now allZero))"
    if ne: "nonemptyFactors fi"
    unfolding list_all_iff factors_calculateResult
  proof
    fix x assume "x \<in> set (buildFactors fi allZero)"
    then obtain e where e: "e \<in> set fi" "x = (fst e, factorEntry allZero (snd e))"
      by (rule buildFactors_entries)
    from ne e(1) have "snd e \<noteq> []" by (simp add: nonemptyFactors_def list_all_iff)
    then show "average (snd x) = Num 0" by (simp add: e(2) factorEntry_allZero)
  qed
  have h: "countHigh (factors (calculateResult fi now allZero)) = 0"
    by (simp add: factors_calculateResult allZero_no_high)
  have l: "RiskLevel.level (riskLevel (calculateResult fi now allZero)) = lit_none \<and>
      recommendProfessional (riskLevel (calculateResult fi now allZero)) = False"
    using determineRiskLevel_table [of "totalScore (calculateResult fi now allZero)"
        "factors (calculateResult fi now allZero)"]
    by (simp add: riskLevel_calculateResult t h)
  have m: "mainIssue (riskLevel (calculateResult fi now allZero)) = None"
    by (simp add: riskLevel_calculateResult determineRiskLevel_mainIssue t h)
  from t p a l m show ?thesis by blast
qed

theorem all_zero_vector_witness:
  "nonemptyFactors factorIndices \<and>
   totalScore (calculateResult factorIndices [] allZero) = 0 \<and>
   list_all (\<lambda>e. average (snd e) = Num 0) (factors (calculateResult factorIndices [] allZero)) \<and>
   mainIssue (riskLevel (calculateResult factorIndices [] allZero)) = None"
proof -
  have n: "nonemptyFactors factorIndices" by code_simp
  from all_zero_vector [of factorIndices "[]"] n show ?thesis by blast
qed

subsection \<open>The main issue without a high factor\<close>

text \<open>
  Without a high factor the loop leaves maxFactorName at its initial value, the empty
  string, and the three branches above the last one return it as mainIssue: for every
  factor table and answer vector with no factor average of 3 or more and a total
  score of at least 160.
\<close>

lemma mainIssue_without_high_factor:
  assumes "countHigh (factors (calculateResult fi now answers)) = 0"
    and "160 \<le> totalScore (calculateResult fi now answers)"
  shows "mainIssue (riskLevel (calculateResult fi now answers)) = Some []"
  using assms
  by (simp add: riskLevel_calculateResult determineRiskLevel_mainIssue maxFactorName_no_high)

text \<open>
  Claim C2. When no factor average reaches 3 and the total score meets a level
  threshold, mainIssue is to be null, as it is in the last branch of
  determineRiskLevel. The code does not do so: on the vector of 20 answers 2 and 70
  answers 3 no factor is high and the total score is exactly 250, the level is
  severe, and the mainIssue returned is the empty string, not null.
\<close>

theorem mainIssue_empty_string_at_threshold:
  "countHigh (factors (calculateResult factorIndices [] thresholdVector)) = 0 \<and>
   totalScore (calculateResult factorIndices [] thresholdVector) = 250 \<and>
   RiskLevel.level (riskLevel (calculateResult factorIndices [] thresholdVector)) = lit_severe \<and>
   mainIssue (riskLevel (calculateResult factorIndices [] thresholdVector)) = Some [] \<and>
   mainIssue (riskLevel (calculateResult factorIndices [] thresholdVector)) \<noteq> None"
  by code_simp

lemma orZero_allFour:
  "1 \<le> index \<Longrightarrow> index \<le> 90 \<Longrightarrow> orZero (js_index allFour (index - 1)) = 4"
  by (simp add: js_index_replicate allFour_def orZero_def)

lemma factorEntry_allFour:
  assumes "indices \<noteq> []" and "\<forall>index \<in> set indices. 1 \<le> index \<and> index \<le> 90"
  shows "factorEntry allFour indices =
     \<lparr>score = 4 * int (length indices), average = Num 4, itemCount = length indices\<rparr>"
proof -
  have "map (\<lambda>index. orZero (js_index allFour (index - 1))) indices = map (\<lambda>index. 4) indices"
    using assms(2) by (simp add: orZero_allFour)
  then have "sum_list (map (\<lambda>index. orZero (js_index allFour (index - 1))) indices) =
      sum_list (map (\<lambda>index. 4) indices)"
    by (rule arg_cong)
  then have s: "score (factorEntry allFour indices) = 4 * int (length indices)"
    unfolding score_factorEntry by (simp add: sum_list_triv)
  have n: "length indices \<noteq> 0" using assms(1) by simp
  have "average (factorEntry allFour indices) =
      Num (of_int (score (factorEntry allFour indices)) / of_nat (length indices))"
    using n by (simp add: factorEntry_def Let_def)
  also have "\<dots> = Num 4" using n by (simp add: s)
  finally have a: "average (factorEntry allFour indices) = Num 4" .
  have c: "itemCount (factorEntry allFour indices) = length indices"
    by (simp add: factorEntry_def Let_def)
  show ?thesis using s a c by (cases "factorEntry allFour indices") simp
qed

lemma itemsInRange_entry:
  "itemsInRange fi \<Longrightarrow> e \<in> set fi \<Longrightarrow> \<forall>index \<in> set (snd e). 1 \<le> index \<and> index \<le> 90"
  by (auto simp: itemsInRange_def list_all_iff)

lemma allFour_averages:
  assumes "plainKeys fi" and "itemsInRange fi" and "nonemptyFactors fi"
  shows "\<forall>x \<in> set (buildFactors fi allFour). average (snd x) = Num 4"
proof
  fix x assume "x \<in> set (buildFactors fi allFour)"
  then obtain e where e: "e \<in> set fi" "x = (fst e, factorEntry allFour (snd e))"
    by (rule buildFactors_entries)
  have "snd e \<noteq> []" using assms(3) e(1) by (simp add: nonemptyFactors_def list_all_iff)
  then show "average (snd x) = Num 4"
    using itemsInRange_entry [OF assms(2) e(1)] by (simp add: e(2) factorEntry_allFour)
qed

lemma mainIssue_firstAtMaximum:
  assumes "firstAtMaximum fs i"
  shows "mainIssue (determineRiskLevel t fs) = Some (fst (fs ! i))"
proof -
  have m: "firstMaxAt fs i" using assms by (rule firstAtMaximum_firstMaxAt)
  have "1 \<le> countHigh fs" using m by (rule firstMaxAt_countHigh)
  then show ?thesis
    by (simp add: determineRiskLevel_mainIssue maxFactorName_firstMaxAt [OF m])
qed

lemma buildFactors_key:
  "plainKeys fi \<Longrightarrow> i < length fi \<Longrightarrow> fst (buildFactors fi answers ! i) = fst (fi ! i)"
  by (simp add: buildFactors_map)

lemma length_buildFactors: "plainKeys fi \<Longrightarrow> length (buildFactors fi answers) = length fi"
  by (simp add: buildFactors_map)

subsection \<open>Ties at the maximum\<close>

text \<open>
  Claim C4. For a factor table with ordinary keys: whenever entry \<open>i\<close> of the factors
  is the first high factor at the maximum average (several may tie there), mainIssue is
  the name of entry \<open>i\<close> of the table. In particular, for a table of 9 factors, none
  without items and all ids within 1..90, the all-four vector gives total score 360,
  every factor average 4, 9 high factors, level severe, recommendProfessional true and
  as mainIssue the first factor of the table.
\<close>

theorem mainIssue_first_at_maximum:
  assumes "plainKeys fi"
  shows "(\<forall>i. firstAtMaximum (factors (calculateResult fi now answers)) i \<longrightarrow>
            mainIssue (riskLevel (calculateResult fi now answers)) = Some (fst (fi ! i))) \<and>
    (length fi = 9 \<and> itemsInRange fi \<and> nonemptyFactors fi \<longrightarrow>
       totalScore (calculateResult fi now allFour) = 360 \<and>
       list_all (\<lambda>e. average (snd e) = Num 4) (factors (calculateResult fi now allFour)) \<and>
       countHigh (factors (calculateResult fi now allFour)) = 9 \<and>
       RiskLevel.level (riskLevel (calculateResult fi now allFour)) = lit_severe \<and>
       recommendProfessional (riskLevel (calculateResult fi now allFour)) = True \<and>
       mainIssue (riskLevel (calculateResult fi now allFour)) = Some (fst (hd fi)))"
proof (intro conjI allI impI)
  fix i assume fm: "firstAtMaximum (factors (calculateResult fi now answers)) i"
  then have "i < length (buildFactors fi answers)"
    by (simp add: firstAtMaximum_def factors_calculateResult)
  then have il: "i < length fi" using assms by (simp add: length_buildFactors)
  have "mainIssue (riskLevel (calculateResult fi now answers)) =
      Some (fst (factors (calculateResult fi now answers) ! i))"
    unfolding riskLevel_calculateResult using fm by (rule mainIssue_firstAtMaximum)
  then show "mainIssue (riskLevel (calculateResult fi now answers)) = Some (fst (fi ! i))"
    using assms il by (simp add: factors_calculateResult buildFactors_key)
next
  assume h: "length fi = 9 \<and> itemsInRange fi \<and> nonemptyFactors fi"
  let ?r = "calculateResult fi now allFour"
  let ?fs = "buildFactors fi allFour"
  have avg: "\<forall>x \<in> set ?fs. average (snd x) = Num 4"
    using assms h by (intro allFour_averages) simp_all
  have len: "length ?fs = 9" using assms h by (simp add: length_buildFactors)
  have high: "\<forall>x \<in> set ?fs. isHigh x" using avg by (simp add: isHigh_def)
  show "totalScore ?r = 360"
    by (simp add: totalScore_sum_list allFour_def orZero_def sum_list_replicate)
  then have t: "totalScore ?r = 360" .
  show "list_all (\<lambda>e. average (snd e) = Num 4) (factors ?r)"
    using avg by (simp add: factors_calculateResult list_all_iff)
  have "filter isHigh ?fs = ?fs" using high by (simp add: filter_id_conv)
  then show c: "countHigh (factors ?r) = 9"
    by (simp add: factors_calculateResult countHigh_def len)
  show "RiskLevel.level (riskLevel ?r) = lit_severe"
    using determineRiskLevel_table [of "totalScore ?r" "factors ?r"]
    by (simp add: riskLevel_calculateResult t)
  show "recommendProfessional (riskLevel ?r) = True"
    using determineRiskLevel_table [of "totalScore ?r" "factors ?r"]
    by (simp add: riskLevel_calculateResult t)
  have z: "0 < length ?fs" using len by simp
  then have mem: "?fs ! 0 \<in> set ?fs" by (rule nth_mem)
  have fm: "firstAtMaximum ?fs 0"
    unfolding firstAtMaximum_def
  proof (intro conjI)
    show "0 < length ?fs" by (rule z)
    show "isHigh (?fs ! 0)" using high mem by blast
    show "list_all (\<lambda>e. isHigh e \<longrightarrow> js_ge (average (snd (?fs ! 0))) (average (snd e))) ?fs"
      using avg mem by (simp add: list_all_iff)
    show "list_all (\<lambda>e. isHigh e \<longrightarrow> average (snd e) \<noteq> average (snd (?fs ! 0))) (take 0 ?fs)"
      by simp
  qed
  have "mainIssue (riskLevel ?r) = Some (fst (?fs ! 0))"
    unfolding riskLevel_calculateResult factors_calculateResult
    using fm by (rule mainIssue_firstAtMaximum)
  moreover have "fst (?fs ! 0) = fst (fi ! 0)"
    using assms h by (intro buildFactors_key) simp_all
  moreover have "fi ! 0 = hd fi" using h by (cases fi) simp_all
  ultimately show "mainIssue (riskLevel ?r) = Some (fst (hd fi))" by simp
qed

theorem mainIssue_first_at_maximum_witness:
  "plainKeys factorIndices \<and>
   firstAtMaximum (factors (calculateResult factorIndices [] tieVector)) 1 \<and>
   mainIssue (riskLevel (calculateResult factorIndices [] tieVector)) = Some lit_obsessive \<and>
   length factorIndices = 9 \<and> itemsInRange factorIndices \<and> nonemptyFactors factorIndices \<and>
   mainIssue (riskLevel (calculateResult factorIndices [] allFour)) = Some lit_somatization \<and>
   totalScore (calculateResult factorIndices [] allFour) = 360 \<and>
   countHigh (factors (calculateResult factorIndices [] allFour)) = 9"
proof -
  have k: "plainKeys factorIndices" by code_simp
  have f: "firstAtMaximum (factors (calculateResult factorIndices [] tieVector)) 1" by code_simp
  have l: "length factorIndices = 9" by code_simp
  have r: "itemsInRange factorIndices" by code_simp
  have n: "nonemptyFactors factorIndices" by code_simp
  have h0: "fst (hd factorIndices) = lit_somatization" by code_simp
  have h1: "fst (factorIndices ! 1) = lit_obsessive" by code_simp
  from mainIssue_first_at_maximum [OF k, of "[]" tieVector] f
  have t: "mainIssue (riskLevel (calculateResult factorIndices [] tieVector)) =
      Some (fst (factorIndices ! 1))"
    by blast
  from mainIssue_first_at_maximum [OF k, of "[]" tieVector] l r n
  have "mainIssue (riskLevel (calculateResult factorIndices [] allFour)) = Some (fst (hd factorIndices))"
    and "totalScore (calculateResult factorIndices [] allFour) = 360"
    and "countHigh (factors (calculateResult factorIndices [] allFour)) = 9"
    by blast+
  with k f l r n t h0 h1 show ?thesis by simp
qed

subsection \<open>getFactorInterpretation\<close>

lemma getFactorInterpretation_level:
  "Interpretation.level (getFactorInterpretation factorName averageScore) =
     (if js_ge averageScore (Num 3) then lit_elevated
      else if js_ge averageScore (Num 2) then lit_medium else lit_normal) \<and>
   status (getFactorInterpretation factorName averageScore) =
     (if js_ge averageScore (Num 3) then ''warning''
      else if js_ge averageScore (Num 2) then ''attention'' else ''normal'')"
  by (simp add: getFactorInterpretation_def Let_def split: property.splits prod.splits)

lemma getFactorInterpretation_fallback:
  assumes "factorName \<notin> set (map fst interpretations)"
    and "factorName \<notin> set objectPrototypeKeys"
  shows "description (getFactorInterpretation factorName averageScore) = Some (Lit 166 0) \<and>
    highScore (getFactorInterpretation factorName averageScore) = Some (Lit 167 0) \<and>
    suggestions (getFactorInterpretation factorName averageScore) =
      Some [Lit 168 0, Lit 168 1, Lit 168 2]"
proof -
  have "map_of interpretations factorName = None"
    using assms(1) by (simp add: map_of_eq_None_iff)
  then have "obj_get interpretations factorName = Undefined"
    using assms(2) by (simp add: obj_get_def)
  then show ?thesis
    by (simp add: getFactorInterpretation_def Let_def fallbackInterpretation_def)
qed

text \<open>
  Claim C6 says that every name that is not one of the 9 factors gets the generic
  fallback interpretation. The name \<^verbatim>\<open>toString\<close> is not a factor, but the lookup finds
  the method inherited from \<^verbatim>\<open>Object.prototype\<close>, which is truthy, so the fallback is
  not taken: the result has the level and the status only, without description,
  highScore or suggestions. (The call still returns, and the level follows the
  thresholds, as the two lemmas above show for every input.)
\<close>

theorem getFactorInterpretation_inherited_key:
  "''toString'' \<notin> set (map fst interpretations) \<and>
   getFactorInterpretation ''toString'' (Num 0) =
     \<lparr>description = None, highScore = None, suggestions = None,
      level = lit_normal, status = ''normal''\<rparr> \<and>
   description (getFactorInterpretation ''toString'' (Num 0)) \<noteq> Some (fst fallbackInterpretation)"
  by code_simp

subsection \<open>parseResultFromURL\<close>

text \<open>
  Claim C10. For every hash and every behaviour of atob and JSON.parse,
  parseResultFromURL returns and does not throw: null when the hash is empty or does
  not start with \<^verbatim>\<open>#result=\<close>, null (with the error written to the console) when
  decoding or parsing of the text after the prefix throws, and the parsed value
  otherwise.
\<close>

theorem parseResultFromURL_never_raises:
  "parseResultFromURL atob jsonParse hash =
     Inr (if hash = [] \<or> \<not> startsWith hash ''#result='' then (None, [])
          else case atob (drop 8 hash) of
                 Inl e \<Rightarrow> (None, [e])
               | Inr decoded \<Rightarrow>
                   (case jsonParse decoded of
                      Inl e \<Rightarrow> (None, [e])
                    | Inr v \<Rightarrow> (Some v, [])))"
  by (simp add: parseResultFromURL_def tryCatch_def andThen_def Let_def split: sum.splits)


end
